theory Spec2Isabelle
  imports Complex_Main "HOL-Library.Word" "HOL-Library.AList"
begin

section \<open>Outcomes of a call\<close>

text \<open>
  Every operation of the runtime either returns or fails to return. The ways of not
  returning that the sources contain are kept apart:
  \<^item> \<open>Deadlock\<close>: a thread locks a \<open>std::mutex\<close> it already owns. The mutex is not
    recursive, so the second \<open>lock\<close> never returns.
  \<^item> \<open>Blocked\<close>: a wait whose condition nobody establishes (a \<open>join\<close> on a thread whose
    function never returns, a \<open>Pop\<close> on a queue nobody pushes to).
  \<^item> \<open>Terminated\<close>: \<open>std::terminate\<close>, called when a joinable \<open>std::thread\<close> is destroyed.
  \<^item> \<open>NullDeref\<close>: a call through an empty \<open>std::unique_ptr\<close>.
  \<^item> \<open>Diverged\<close>: a loop whose condition stays true.
  \<^item> \<open>OutOfFrames\<close>: the main loop was still running when the finite list of frames given
    to the model ended.
\<close>

datatype fault = Deadlock | Blocked | Terminated | NullDeref | Diverged | OutOfFrames

section \<open>ThreadSafeQueue.h\<close>

text \<open>
  The queue is the content of \<open>queue_\<close>, front first. Each member function holds
  \<open>mutex_\<close> for its whole body and calls no other member, so in sequential use the lock
  is always free when a member is entered and is left out of the model.
\<close>

definition ThreadSafeQueue_Push :: "'a \<Rightarrow> 'a list \<Rightarrow> 'a list" where
  "ThreadSafeQueue_Push item queue = queue @ [item]"

text \<open>\<open>Pop\<close> waits until the queue is not empty; on an empty queue it does not return.\<close>

definition ThreadSafeQueue_Pop :: "'a list \<Rightarrow> fault + ('a \<times> 'a list)" where
  "ThreadSafeQueue_Pop queue =
     (case queue of [] \<Rightarrow> Inl Blocked | item # rest \<Rightarrow> Inr (item, rest))"

definition ThreadSafeQueue_TryPop :: "'a list \<Rightarrow> 'a option \<times> 'a list" where
  "ThreadSafeQueue_TryPop queue =
     (if queue = [] then (None, queue) else (Some (hd queue), tl queue))"

definition ThreadSafeQueue_Empty :: "'a list \<Rightarrow> bool" where
  "ThreadSafeQueue_Empty queue = (queue = [])"

definition ThreadSafeQueue_Size :: "'a list \<Rightarrow> nat" where
  "ThreadSafeQueue_Size queue = length queue"

text \<open>
  A sequential client: the calls a producer and a consumer make, in the order in which
  they take the lock. \<open>queue_run\<close> performs them and collects what the pops returned.
\<close>

datatype 'a queue_call = CallPush 'a | CallPop | CallTryPop

fun pushed_items :: "'a queue_call list \<Rightarrow> 'a list" where
  "pushed_items [] = []"
| "pushed_items (CallPush item # ops) = item # pushed_items ops"
| "pushed_items (_ # ops) = pushed_items ops"

fun queue_run :: "'a queue_call list \<Rightarrow> 'a list \<Rightarrow> 'a list \<Rightarrow> fault + ('a list \<times> 'a list)" where
  "queue_run [] queue popped = Inr (queue, popped)"
| "queue_run (CallPush item # ops) queue popped =
     queue_run ops (ThreadSafeQueue_Push item queue) popped"
| "queue_run (CallPop # ops) queue popped =
     (case ThreadSafeQueue_Pop queue of
        Inl f \<Rightarrow> Inl f
      | Inr (item, queue') \<Rightarrow> queue_run ops queue' (popped @ [item]))"
| "queue_run (CallTryPop # ops) queue popped =
     (case ThreadSafeQueue_TryPop queue of
        (None, queue') \<Rightarrow> queue_run ops queue' popped
      | (Some item, queue') \<Rightarrow> queue_run ops queue' (popped @ [item]))"

text \<open>
  \<open>pops_served ops n\<close>: on a queue that holds \<open>n\<close> items, every \<open>Pop\<close> among the calls
  finds an item when it is made, so none of them has to wait.
\<close>

fun pops_served :: "'a queue_call list \<Rightarrow> nat \<Rightarrow> bool" where
  "pops_served [] n = True"
| "pops_served (CallPush item # ops) n = pops_served ops (Suc n)"
| "pops_served (CallPop # ops) n = (0 < n \<and> pops_served ops (n - 1))"
| "pops_served (CallTryPop # ops) n = pops_served ops (n - 1)"

section \<open>Types.h\<close>

datatype GameState =
  Uninitialized | Loading | MainMenu | RaceSetup | Racing | Paused | RaceFinished | Exiting

text \<open>
  \<open>double\<close> values are modelled as exact rationals: comparisons and the clamp are exact
  on doubles as well, the rounding of sums and differences is not modelled.
\<close>

definition FIXED_TIMESTEP :: rat where
  "FIXED_TIMESTEP = 1 / 60"

definition MAX_TIMESTEP :: rat where
  "MAX_TIMESTEP = 1 / 30"

section \<open>ThreadManager.h, ThreadManager.cpp\<close>

datatype ThreadPriority = Low | Normal | High | RealTime

datatype ThreadStatus = Idle | Running | Paused | Stopping | Stopped

text \<open>
  \<open>ThreadInfo\<close>. The \<open>std::thread\<close> member is represented by what the registry uses of
  it, whether it is \<open>joinable\<close>; the pause mutex and the condition variable have no
  content of their own. A thread function is an opaque callable, named by a number.
\<close>

type_synonym callable = nat

record ThreadInfo =
  joinable :: bool
  name :: string
  priority :: ThreadPriority
  status :: ThreadStatus
  shouldStop :: bool
  isPaused :: bool

record ThreadPoolInfo =
  threadNames :: "string list"
  taskQueue :: "callable list"

text \<open>
  What the registry does to the threads themselves is recorded in \<open>effects\<close>, in the
  order in which it happens: spawning a thread, setting its priority, writing a stop flag,
  clearing the pause flag and signalling the condition variable, joining, destroying a
  descriptor, and setting the affinity of a thread.
\<close>

datatype thread_effect =
    Spawned string callable
  | PrioritySet string ThreadPriority
  | StopRequested string
  | Unparked string
  | Joined string
  | Dropped string
  | AffinitySet string "64 word"

text \<open>
  The two \<open>std::unordered_map\<close> tables are association lists: the list order stands for
  the (unspecified) iteration order of the table. \<open>mutex_held\<close> is the state of
  \<open>mutex_\<close> as seen by the thread that calls into the registry. Logger and profiler
  calls are left out.
\<close>

record ThreadManager =
  threads :: "(string \<times> ThreadInfo) list"
  threadPools :: "(string \<times> ThreadPoolInfo) list"
  mutex_held :: bool
  maxThreads :: "32 word"
  initialized :: bool
  activeThreadCount :: "32 word"
  effects :: "thread_effect list"

text \<open>The constructor.\<close>

definition ThreadManager_new :: ThreadManager where
  "ThreadManager_new =
     \<lparr>threads = [], threadPools = [], mutex_held = False, maxThreads = 0,
      initialized = False, activeThreadCount = 0, effects = []\<rparr>"

text \<open>
  \<open>std::lock_guard<std::mutex> lock(mutex_)\<close> at the head of a member function: the body
  runs with the mutex held and the mutex is released when the function returns. When the
  calling thread already holds the mutex, the lock is never granted.
\<close>

definition lock_guard ::
  "(ThreadManager \<Rightarrow> fault + ('a \<times> ThreadManager)) \<Rightarrow> ThreadManager \<Rightarrow> fault + ('a \<times> ThreadManager)" where
  "lock_guard body tm =
     (if mutex_held tm then Inl Deadlock
      else case body (tm\<lparr>mutex_held := True\<rparr>) of
             Inl f \<Rightarrow> Inl f
           | Inr (r, tm') \<Rightarrow> Inr (r, tm'\<lparr>mutex_held := False\<rparr>))"

text \<open>\<open>Initialize\<close>; \<open>hw\<close> is the value of \<open>std::thread::hardware_concurrency()\<close>.\<close>

definition ThreadManager_Initialize ::
  "32 word \<Rightarrow> 32 word \<Rightarrow> ThreadManager \<Rightarrow> fault + (bool \<times> ThreadManager)" where
  "ThreadManager_Initialize hw maxThreads_arg =
     lock_guard (\<lambda>tm.
       if initialized tm then Inr (False, tm)
       else
         let tm1 =
               (if maxThreads_arg = 0
                then (let tm0 = tm\<lparr>maxThreads := hw\<rparr>
                      in if maxThreads tm0 < 2 then tm0\<lparr>maxThreads := 2\<rparr> else tm0)
                else tm\<lparr>maxThreads := maxThreads_arg\<rparr>)
         in Inr (True, tm1\<lparr>initialized := True\<rparr>))"

definition ThreadManager_ThreadExists ::
  "string \<Rightarrow> ThreadManager \<Rightarrow> fault + (bool \<times> ThreadManager)" where
  "ThreadManager_ThreadExists nm =
     lock_guard (\<lambda>tm. Inr (map_of (threads tm) nm \<noteq> None, tm))"

definition ThreadManager_GetThreadStatus ::
  "string \<Rightarrow> ThreadManager \<Rightarrow> fault + (ThreadStatus \<times> ThreadManager)" where
  "ThreadManager_GetThreadStatus nm =
     lock_guard (\<lambda>tm.
       case map_of (threads tm) nm of
         None \<Rightarrow> Inr (Stopped, tm)
       | Some threadInfo \<Rightarrow> Inr (status threadInfo, tm))"


text \<open>
  \<open>SetNativeThreadPriority\<close> hands the priority to the platform; whether the platform
  accepts it is the parameter \<open>native_ok\<close>.
\<close>

definition SetNativeThreadPriority ::
  "bool \<Rightarrow> string \<Rightarrow> ThreadPriority \<Rightarrow> ThreadManager \<Rightarrow> bool \<times> ThreadManager" where
  "SetNativeThreadPriority native_ok nm prio tm =
     (if native_ok then (True, tm\<lparr>effects := effects tm @ [PrioritySet nm prio]\<rparr>)
      else (False, tm))"

text \<open>
  \<open>CreateThread\<close>. It takes \<open>mutex_\<close> and, still holding it, calls \<open>ThreadExists\<close>,
  which takes \<open>mutex_\<close> again.
\<close>

definition ThreadManager_CreateThread ::
  "bool \<Rightarrow> string \<Rightarrow> callable \<Rightarrow> ThreadPriority \<Rightarrow> ThreadManager \<Rightarrow> fault + (bool \<times> ThreadManager)" where
  "ThreadManager_CreateThread native_ok nm function prio =
     lock_guard (\<lambda>tm.
       if \<not> initialized tm then Inr (False, tm)
       else
         case ThreadManager_ThreadExists nm tm of
           Inl f \<Rightarrow> Inl f
         | Inr (exists, tm1) \<Rightarrow>
             if exists then Inr (False, tm1)
             else if unat (maxThreads tm1) \<le> length (threads tm1) then Inr (False, tm1)
             else
               let threadInfo =
                     \<lparr>joinable = True, name = nm, priority = prio, status = Idle,
                      shouldStop = False, isPaused = False\<rparr>;
                   tm2 = tm1\<lparr>effects := effects tm1 @ [Spawned nm function]\<rparr>;
                   (ok, tm3) = SetNativeThreadPriority native_ok nm prio tm2
               in Inr (True, tm3\<lparr>threads := AList.update nm threadInfo (threads tm3)\<rparr>))"

text \<open>
  The body of the loop of \<open>Shutdown\<close> for one descriptor (lines 65 to 83). \<open>join\<close>
  returns when the thread's wrapper has returned; \<open>finishes nm\<close> says whether the wrapper
  of thread \<open>nm\<close> returns once its stop flag is set, which it does unless the thread
  function it runs never returns. A wrapper that has returned has written the status
  \<open>Stopped\<close> (line 167). The wrapper's own updates of \<open>activeThreadCount_\<close> are not
  followed here: \<open>Shutdown\<close> overwrites the counter after the loop.
\<close>

definition stop_and_join ::
  "(string \<Rightarrow> bool) \<Rightarrow> string \<Rightarrow> ThreadInfo \<Rightarrow> fault + (ThreadInfo \<times> thread_effect list)" where
  "stop_and_join finishes nm threadInfo =
     (if status threadInfo \<noteq> Stopped then
        let t1 = threadInfo\<lparr>shouldStop := True\<rparr>;
            eff1 = [StopRequested nm];
            (t2, eff2) =
              (if status t1 = Paused then (t1\<lparr>isPaused := False\<rparr>, eff1 @ [Unparked nm])
               else (t1, eff1))
        in if joinable t2 then
             (if finishes nm
              then Inr (t2\<lparr>joinable := False, status := Stopped\<rparr>, eff2 @ [Joined nm])
              else Inl Blocked)
           else Inr (t2\<lparr>status := Stopped\<rparr>, eff2)
      else Inr (threadInfo, []))"

text \<open>
  \<open>for (auto& pair : threads_)\<close>, in the iteration order of the table; the result is
  the table after the loop and the effects of the loop.
\<close>

fun stop_all ::
  "(string \<Rightarrow> bool) \<Rightarrow> (string \<times> ThreadInfo) list \<Rightarrow>
   fault + ((string \<times> ThreadInfo) list \<times> thread_effect list)" where
  "stop_all finishes [] = Inr ([], [])"
| "stop_all finishes ((nm, threadInfo) # rest) =
     (case stop_and_join finishes nm threadInfo of
        Inl f \<Rightarrow> Inl f
      | Inr (threadInfo', eff) \<Rightarrow>
          (case stop_all finishes rest of
             Inl f \<Rightarrow> Inl f
           | Inr (rest', eff') \<Rightarrow> Inr ((nm, threadInfo') # rest', eff @ eff')))"

text \<open>
  \<open>threads_.clear()\<close> destroys every descriptor and with it the \<open>std::thread\<close> it
  owns; destroying a \<open>std::thread\<close> that is still joinable calls \<open>std::terminate\<close>.
\<close>

fun clear_threads :: "(string \<times> ThreadInfo) list \<Rightarrow> fault + thread_effect list" where
  "clear_threads [] = Inr []"
| "clear_threads ((nm, threadInfo) # rest) =
     (if joinable threadInfo then Inl Terminated
      else case clear_threads rest of
             Inl f \<Rightarrow> Inl f
           | Inr eff \<Rightarrow> Inr (Dropped nm # eff))"

definition ThreadManager_Shutdown ::
  "(string \<Rightarrow> bool) \<Rightarrow> ThreadManager \<Rightarrow> fault + (unit \<times> ThreadManager)" where
  "ThreadManager_Shutdown finishes =
     lock_guard (\<lambda>tm.
       if \<not> initialized tm then Inr ((), tm)
       else
         case stop_all finishes (threads tm) of
           Inl f \<Rightarrow> Inl f
         | Inr (stopped, eff) \<Rightarrow>
             (case clear_threads stopped of
                Inl f \<Rightarrow> Inl f
              | Inr dropped \<Rightarrow>
                  Inr ((), tm\<lparr>threads := [], threadPools := [], activeThreadCount := 0,
                              initialized := False,
                              effects := effects tm @ eff @ dropped\<rparr>)))"

text \<open>
  Reading an effect list: \<open>precedes a b xs\<close> holds when some occurrence of \<open>a\<close> in \<open>xs\<close>
  is followed, later in \<open>xs\<close>, by \<open>b\<close>.
\<close>

fun precedes :: "'a \<Rightarrow> 'a \<Rightarrow> 'a list \<Rightarrow> bool" where
  "precedes a b [] = False"
| "precedes a b (x # xs) = ((x = a \<and> b \<in> set xs) \<or> precedes a b xs)"

subsection \<open>The other operations of the registry\<close>




definition ThreadManager_GetMaxThreadCount :: "ThreadManager \<Rightarrow> 32 word" where
  "ThreadManager_GetMaxThreadCount tm = maxThreads tm"














section \<open>GameEngine.h, GameEngine.cpp\<close>

text \<open>
  What the engine calls is recorded in \<open>calls\<close>, in order. The bodies of \<open>Update\<close>,
  \<open>FixedUpdate\<close>, \<open>Render\<close> and \<open>ProcessInput\<close> only select which subsystem would be
  called (the subsystems are not implemented), so each of them is recorded as the call
  and its argument. A state callback is an opaque callable; its invocation is recorded
  together with the value of \<open>gameState_\<close> at the moment it is invoked.
\<close>

datatype engine_call =
    ProcessInputCalled
  | FixedUpdateCalled rat
  | UpdateCalled rat
  | RenderCalled
  | Slept
  | StateCallbackInvoked callable GameState
  | SubsystemsShutDown

record GameEngine =
  threadManager :: "ThreadManager option"
  gameState :: GameState
  stateCallbacks :: "(GameState \<times> callable) list"
  deltaTime :: rat
  fixedTimeStep :: rat
  accumulator :: rat
  frameRateUpdateTimer :: rat
  frameCount :: int
  currentFrameRate :: rat
  exitRequested :: bool
  exitCode :: int
  calls :: "engine_call list"

text \<open>
  The constructor. The application settings (name, window size, fullscreen) and the two
  time points take no part in what follows and are left out; the clock is replaced by the
  elapsed time it measures in each frame.
\<close>

definition GameEngine_new :: GameEngine where
  "GameEngine_new =
     \<lparr>threadManager = None, gameState = Uninitialized, stateCallbacks = [],
      deltaTime = 0, fixedTimeStep = FIXED_TIMESTEP, accumulator = 0,
      frameRateUpdateTimer = 0, frameCount = 0, currentFrameRate = 0,
      exitRequested = False, exitCode = 0, calls = []\<rparr>"

definition RegisterStateCallback :: "GameState \<Rightarrow> callable \<Rightarrow> GameEngine \<Rightarrow> GameEngine" where
  "RegisterStateCallback state callback e =
     e\<lparr>stateCallbacks := AList.update state callback (stateCallbacks e)\<rparr>"

definition SetGameState :: "GameState \<Rightarrow> GameEngine \<Rightarrow> GameEngine" where
  "SetGameState state e =
     (let oldState = gameState e
      in if oldState = state then e
         else
           let e1 = e\<lparr>gameState := state\<rparr>
           in case map_of (stateCallbacks e1) state of
                None \<Rightarrow> e1
              | Some callback \<Rightarrow>
                  e1\<lparr>calls := calls e1 @ [StateCallbackInvoked callback (gameState e1)]\<rparr>)"

definition RequestExit :: "int \<Rightarrow> GameEngine \<Rightarrow> GameEngine" where
  "RequestExit code e = e\<lparr>exitRequested := True, exitCode := code\<rparr>"

definition SetFixedTimeStep :: "rat \<Rightarrow> GameEngine \<Rightarrow> GameEngine" where
  "SetFixedTimeStep timeStep e = e\<lparr>fixedTimeStep := max (1 / 1000) timeStep\<rparr>"

definition Update :: "rat \<Rightarrow> GameEngine \<Rightarrow> GameEngine" where
  "Update dt e = e\<lparr>calls := calls e @ [UpdateCalled dt]\<rparr>"

definition FixedUpdate :: "rat \<Rightarrow> GameEngine \<Rightarrow> GameEngine" where
  "FixedUpdate fixedDeltaTime e = e\<lparr>calls := calls e @ [FixedUpdateCalled fixedDeltaTime]\<rparr>"

definition Render :: "GameEngine \<Rightarrow> GameEngine" where
  "Render e = e\<lparr>calls := calls e @ [RenderCalled]\<rparr>"

definition ProcessInput :: "GameEngine \<Rightarrow> GameEngine" where
  "ProcessInput e = e\<lparr>calls := calls e @ [ProcessInputCalled]\<rparr>"

text \<open>
  \<open>ShutdownSubsystems\<close>: the six subsystem pointers are empty and resetting them does
  nothing; then \<open>threadManager_->Shutdown()\<close> and \<open>threadManager_.reset()\<close>, whose
  destructor calls \<open>Shutdown\<close> once more.
\<close>

definition ShutdownSubsystems :: "(string \<Rightarrow> bool) \<Rightarrow> GameEngine \<Rightarrow> fault + GameEngine" where
  "ShutdownSubsystems finishes e =
     (case threadManager e of
        None \<Rightarrow> Inl NullDeref
      | Some tm \<Rightarrow>
          (case ThreadManager_Shutdown finishes tm of
             Inl f \<Rightarrow> Inl f
           | Inr (_, tm1) \<Rightarrow>
               (case ThreadManager_Shutdown finishes tm1 of
                  Inl f \<Rightarrow> Inl f
                | Inr _ \<Rightarrow>
                    Inr (e\<lparr>threadManager := None, calls := calls e @ [SubsystemsShutDown]\<rparr>))))"

definition GameEngine_Shutdown :: "(string \<Rightarrow> bool) \<Rightarrow> GameEngine \<Rightarrow> fault + GameEngine" where
  "GameEngine_Shutdown finishes e =
     (if gameState e = Uninitialized then Inr e
      else
        case ShutdownSubsystems finishes (SetGameState Exiting e) of
          Inl f \<Rightarrow> Inl f
        | Inr e1 \<Rightarrow> Inr (e1\<lparr>gameState := Uninitialized, exitRequested := False, exitCode := 0\<rparr>))"

text \<open>
  The inner loop of \<open>Run\<close> (lines 180 to 183). It runs for as long as its condition
  holds, so it is a partial function: \<open>None\<close> is the loop that never ends.
\<close>

partial_function (option) fixed_update_loop :: "GameEngine \<Rightarrow> GameEngine option" where
  "fixed_update_loop e =
     (if accumulator e \<ge> fixedTimeStep e
      then fixed_update_loop
             ((FixedUpdate (fixedTimeStep e) e)\<lparr>accumulator := accumulator e - fixedTimeStep e\<rparr>)
      else Some e)"

text \<open>
  What reaches the engine from outside while the loop runs: per iteration, the time the
  clock measured since the previous iteration, and the calls other threads made to
  \<open>RequestExit\<close> and \<open>SetGameState\<close>, which take effect in the model when the iteration
  ends, before the loop condition is read again.
\<close>

datatype external_call = ExtRequestExit int | ExtSetGameState GameState

record frame =
  elapsed :: rat
  arrivals :: "external_call list"

fun apply_external :: "GameEngine \<Rightarrow> external_call \<Rightarrow> GameEngine" where
  "apply_external e (ExtRequestExit code) = RequestExit code e"
| "apply_external e (ExtSetGameState state) = SetGameState state e"

text \<open>
  One iteration of the main loop (lines 141 to 201), in three parts. Before the inner
  loop: the delta time and its clamp, the frame rate, the input, and the delta added to
  the accumulator.
\<close>

definition begin_frame :: "frame \<Rightarrow> GameEngine \<Rightarrow> GameEngine" where
  "begin_frame f e =
     (let e1 = e\<lparr>deltaTime := elapsed f\<rparr>;
          e2 = (if deltaTime e1 > MAX_TIMESTEP then e1\<lparr>deltaTime := MAX_TIMESTEP\<rparr> else e1);
          e3 = e2\<lparr>frameRateUpdateTimer := frameRateUpdateTimer e2 + deltaTime e2,
                 frameCount := frameCount e2 + 1\<rparr>;
          e4 = (if frameRateUpdateTimer e3 \<ge> 1
                then e3\<lparr>currentFrameRate := of_int (frameCount e3) / frameRateUpdateTimer e3,
                        frameCount := 0, frameRateUpdateTimer := 0\<rparr>
                else e3);
          e5 = ProcessInput e4
      in e5\<lparr>accumulator := accumulator e5 + deltaTime e5\<rparr>)"

text \<open>After the inner loop: update, render, the yield; then the calls that arrived.\<close>

definition end_frame :: "frame \<Rightarrow> GameEngine \<Rightarrow> GameEngine" where
  "end_frame f e =
     (let e1 = Update (deltaTime e) e;
          e2 = Render e1;
          e3 = (if deltaTime e2 < 1 / 1000 then e2\<lparr>calls := calls e2 @ [Slept]\<rparr> else e2)
      in foldl apply_external e3 (arrivals f))"

definition frame_body :: "frame \<Rightarrow> GameEngine \<Rightarrow> fault + GameEngine" where
  "frame_body f e =
     (case fixed_update_loop (begin_frame f e) of
        None \<Rightarrow> Inl Diverged
      | Some e' \<Rightarrow> Inr (end_frame f e'))"

text \<open>
  \<open>while (!exitRequested_)\<close> over the frames given: the result is the engine when the loop
  ended, or when the frames ran out, and the number of iterations performed.
\<close>

fun main_loop :: "frame list \<Rightarrow> GameEngine \<Rightarrow> fault + (GameEngine \<times> nat)" where
  "main_loop [] e = Inr (e, 0)"
| "main_loop (f # fs) e =
     (if exitRequested e then Inr (e, 0)
      else case frame_body f e of
             Inl x \<Rightarrow> Inl x
           | Inr e' \<Rightarrow>
               (case main_loop fs e' of
                  Inl x \<Rightarrow> Inl x
                | Inr (e'', n) \<Rightarrow> Inr (e'', Suc n)))"

definition GameEngine_Run ::
  "(string \<Rightarrow> bool) \<Rightarrow> frame list \<Rightarrow> GameEngine \<Rightarrow> fault + (int \<times> GameEngine)" where
  "GameEngine_Run finishes frames e =
     (if gameState e = Uninitialized then Inr (- 1, e)
      else
        case main_loop frames e of
          Inl x \<Rightarrow> Inl x
        | Inr (e1, n) \<Rightarrow>
            if \<not> exitRequested e1 then Inl OutOfFrames
            else
              (case GameEngine_Shutdown finishes e1 of
                 Inl x \<Rightarrow> Inl x
               | Inr e2 \<Rightarrow> Inr (exitCode e2, e2)))"

text \<open>
  Reading a call list: the deltas given to \<open>Update\<close>, and the deltas given to
  \<open>FixedUpdate\<close>, one for every fixed step.
\<close>

fun update_deltas :: "engine_call list \<Rightarrow> rat list" where
  "update_deltas [] = []"
| "update_deltas (UpdateCalled dt # cs) = dt # update_deltas cs"
| "update_deltas (_ # cs) = update_deltas cs"

fun fixed_update_deltas :: "engine_call list \<Rightarrow> rat list" where
  "fixed_update_deltas [] = []"
| "fixed_update_deltas (FixedUpdateCalled dt # cs) = dt # fixed_update_deltas cs"
| "fixed_update_deltas (_ # cs) = fixed_update_deltas cs"

text \<open>The delta of an iteration after the clamp (lines 149 to 151).\<close>

definition clamped :: "frame \<Rightarrow> rat" where
  "clamped f = (if elapsed f > MAX_TIMESTEP then MAX_TIMESTEP else elapsed f)"

subsection \<open>The main loop in double arithmetic\<close>







definition begin_frame_rounded :: "(rat \<Rightarrow> rat) \<Rightarrow> frame \<Rightarrow> GameEngine \<Rightarrow> GameEngine" where
  "begin_frame_rounded rnd f e =
     (let e1 = e\<lparr>deltaTime := elapsed f\<rparr>;
          e2 = (if deltaTime e1 > rnd MAX_TIMESTEP then e1\<lparr>deltaTime := rnd MAX_TIMESTEP\<rparr>
                else e1);
          e3 = e2\<lparr>frameRateUpdateTimer := rnd (frameRateUpdateTimer e2 + deltaTime e2),
                 frameCount := frameCount e2 + 1\<rparr>;
          e4 = (if frameRateUpdateTimer e3 \<ge> 1
                then e3\<lparr>currentFrameRate := rnd (of_int (frameCount e3) / frameRateUpdateTimer e3),
                        frameCount := 0, frameRateUpdateTimer := 0\<rparr>
                else e3);
          e5 = ProcessInput e4
      in e5\<lparr>accumulator := rnd (accumulator e5 + deltaTime e5)\<rparr>)"

partial_function (option) fixed_update_loop_rounded ::
  "(rat \<Rightarrow> rat) \<Rightarrow> GameEngine \<Rightarrow> GameEngine option" where
  "fixed_update_loop_rounded rnd e =
     (if accumulator e \<ge> fixedTimeStep e
      then fixed_update_loop_rounded rnd
             ((FixedUpdate (fixedTimeStep e) e)
                \<lparr>accumulator := rnd (accumulator e - fixedTimeStep e)\<rparr>)
      else Some e)"

declare fixed_update_loop_rounded.simps [code]

definition end_frame_rounded :: "(rat \<Rightarrow> rat) \<Rightarrow> frame \<Rightarrow> GameEngine \<Rightarrow> GameEngine" where
  "end_frame_rounded rnd f e =
     (let e1 = Update (deltaTime e) e;
          e2 = Render e1;
          e3 = (if deltaTime e2 < rnd (1 / 1000) then e2\<lparr>calls := calls e2 @ [Slept]\<rparr> else e2)
      in foldl apply_external e3 (arrivals f))"

definition frame_body_rounded :: "(rat \<Rightarrow> rat) \<Rightarrow> frame \<Rightarrow> GameEngine \<Rightarrow> fault + GameEngine" where
  "frame_body_rounded rnd f e =
     (case fixed_update_loop_rounded rnd (begin_frame_rounded rnd f e) of
        None \<Rightarrow> Inl Diverged
      | Some e' \<Rightarrow> Inr (end_frame_rounded rnd f e'))"

fun main_loop_rounded ::
  "(rat \<Rightarrow> rat) \<Rightarrow> frame list \<Rightarrow> GameEngine \<Rightarrow> fault + (GameEngine \<times> nat)" where
  "main_loop_rounded rnd [] e = Inr (e, 0)"
| "main_loop_rounded rnd (f # fs) e =
     (if exitRequested e then Inr (e, 0)
      else case frame_body_rounded rnd f e of
             Inl x \<Rightarrow> Inl x
           | Inr e' \<Rightarrow>
               (case main_loop_rounded rnd fs e' of
                  Inl x \<Rightarrow> Inl x
                | Inr (e'', n) \<Rightarrow> Inr (e'', Suc n)))"

section \<open>Properties of the queue\<close>

lemma queue_run_invariant:
  "queue_run ops queue popped = Inr (queue', popped') \<Longrightarrow>
   popped @ queue @ pushed_items ops = popped' @ queue'"
proof (induction ops queue popped rule: queue_run.induct)
  case (1 queue popped)
  then show ?case by simp
next
  case (2 item ops queue popped)
  then show ?case by (simp add: ThreadSafeQueue_Push_def)
next
  case (3 ops queue popped)
  then show ?case
    by (cases queue) (simp_all add: ThreadSafeQueue_Pop_def)
next
  case (4 ops queue popped)
  then show ?case
    by (cases queue) (simp_all add: ThreadSafeQueue_TryPop_def)
qed

lemma queue_run_returns:
  "(\<exists>queue' popped'. queue_run ops queue popped = Inr (queue', popped')) \<longleftrightarrow>
   pops_served ops (length queue)"
proof (induction ops queue popped rule: queue_run.induct)
  case (1 queue popped)
  then show ?case by simp
next
  case (2 item ops queue popped)
  then show ?case by (simp add: ThreadSafeQueue_Push_def)
next
  case (3 ops queue popped)
  then show ?case
    by (cases queue) (simp_all add: ThreadSafeQueue_Pop_def)
next
  case (4 ops queue popped)
  then show ?case
    by (cases queue) (simp_all add: ThreadSafeQueue_TryPop_def)
qed

lemma queue_run_pushes:
  "queue_run (map CallPush items @ ops) queue popped = queue_run ops (queue @ items) popped"
  by (induction items arbitrary: queue) (simp_all add: ThreadSafeQueue_Push_def)

lemma queue_run_drain_Pop:
  "queue_run (replicate (length queue) CallPop) queue popped = Inr ([], popped @ queue)"
  by (induction queue arbitrary: popped) (simp_all add: ThreadSafeQueue_Pop_def)

lemma queue_run_drain_TryPop:
  "queue_run (replicate (length queue) CallTryPop) queue popped = Inr ([], popped @ queue)"
  by (induction queue arbitrary: popped) (simp_all add: ThreadSafeQueue_TryPop_def)

text \<open>
  C9. Used sequentially from an empty queue, the items pushed are the items popped so far
  followed by the items still queued, in order; so once the queue is empty again the popped
  sequence is the pushed sequence. The calls all return exactly when no \<open>Pop\<close> is made on
  an empty queue; in particular pushing any items and then popping as many, with \<open>Pop\<close>
  or with \<open>TryPop\<close>, returns and yields the items in the order pushed and the empty queue.
  \<open>Pop\<close> returns the front item of a queue that is not empty and removes it, and waits
  on an empty one. \<open>TryPop\<close> returns the empty optional exactly when the queue is empty
  and then leaves the queue as it is; otherwise it returns the front item and removes it.
\<close>

theorem queue_fifo_roundtrip:
  "(queue_run ops [] [] = Inr (queue, popped) \<longrightarrow>
      pushed_items ops = popped @ queue \<and>
      (ThreadSafeQueue_Empty queue \<longrightarrow> popped = pushed_items ops)) \<and>
   ((\<exists>queue' popped'. queue_run ops [] [] = Inr (queue', popped')) \<longleftrightarrow> pops_served ops 0) \<and>
   queue_run (map CallPush items @ replicate (length items) CallPop) [] [] = Inr ([], items) \<and>
   queue_run (map CallPush items @ replicate (length items) CallTryPop) [] [] = Inr ([], items) \<and>
   (ThreadSafeQueue_Empty q \<longrightarrow> ThreadSafeQueue_Pop q = Inl Blocked) \<and>
   (\<not> ThreadSafeQueue_Empty q \<longrightarrow> ThreadSafeQueue_Pop q = Inr (hd q, tl q)) \<and>
   (fst (ThreadSafeQueue_TryPop q) = None \<longleftrightarrow> ThreadSafeQueue_Empty q) \<and>
   (ThreadSafeQueue_Empty q \<longrightarrow> ThreadSafeQueue_TryPop q = (None, q)) \<and>
   (\<not> ThreadSafeQueue_Empty q \<longrightarrow>
      ThreadSafeQueue_TryPop q = (Some (hd q), tl q) \<and> q = hd q # tl q)"
proof -
  have inv: "queue_run ops [] [] = Inr (queue, popped) \<Longrightarrow> pushed_items ops = popped @ queue"
    using queue_run_invariant [of ops "[]" "[]" queue popped] by simp
  have ret: "(\<exists>queue' popped'. queue_run ops [] [] = Inr (queue', popped')) \<longleftrightarrow> pops_served ops 0"
    using queue_run_returns [of ops "[]" "[]"] by simp
  have d1: "queue_run (map CallPush items @ replicate (length items) CallPop) [] [] = Inr ([], items)"
    using queue_run_drain_Pop [of items "[]"] by (simp add: queue_run_pushes)
  have d2: "queue_run (map CallPush items @ replicate (length items) CallTryPop) [] [] = Inr ([], items)"
    using queue_run_drain_TryPop [of items "[]"] by (simp add: queue_run_pushes)
  have pop: "(ThreadSafeQueue_Empty q \<longrightarrow> ThreadSafeQueue_Pop q = Inl Blocked) \<and>
             (\<not> ThreadSafeQueue_Empty q \<longrightarrow> ThreadSafeQueue_Pop q = Inr (hd q, tl q))"
    by (cases q) (simp_all add: ThreadSafeQueue_Pop_def ThreadSafeQueue_Empty_def)
  have trypop: "(fst (ThreadSafeQueue_TryPop q) = None \<longleftrightarrow> ThreadSafeQueue_Empty q) \<and>
   (ThreadSafeQueue_Empty q \<longrightarrow> ThreadSafeQueue_TryPop q = (None, q)) \<and>
   (\<not> ThreadSafeQueue_Empty q \<longrightarrow>
      ThreadSafeQueue_TryPop q = (Some (hd q), tl q) \<and> q = hd q # tl q)"
    by (auto simp: ThreadSafeQueue_TryPop_def ThreadSafeQueue_Empty_def)
  from inv ret d1 d2 pop trypop show ?thesis
    by (simp add: ThreadSafeQueue_Empty_def)
qed

theorem queue_fifo_roundtrip_witness:
  "queue_run [CallPush (1::nat), CallPush 2, CallTryPop, CallPush 3, CallPop, CallPop, CallTryPop]
     [] [] = Inr ([], [1, 2, 3]) \<and>
   pushed_items [CallPush (1::nat), CallPush 2, CallTryPop, CallPush 3, CallPop, CallPop, CallTryPop]
     = [1, 2, 3] @ [] \<and>
   pops_served [CallPush (1::nat), CallPush 2, CallTryPop, CallPush 3, CallPop, CallPop, CallTryPop] 0 \<and>
   queue_run (map CallPush [7::nat, 8, 9] @ replicate 3 CallPop) [] [] = Inr ([], [7, 8, 9]) \<and>
   ThreadSafeQueue_Empty ([]::nat list) \<and>
   ThreadSafeQueue_Pop ([]::nat list) = Inl Blocked \<and>
   ThreadSafeQueue_TryPop ([]::nat list) = (None, []) \<and>
   \<not> ThreadSafeQueue_Empty [4::nat, 5] \<and>
   ThreadSafeQueue_Pop [4::nat, 5] = Inr (4, [5]) \<and>
   ThreadSafeQueue_TryPop [4::nat, 5] = (Some 4, [5])"
  using queue_fifo_roundtrip
    [of "[CallPush (1::nat), CallPush 2, CallTryPop, CallPush 3, CallPop, CallPop, CallTryPop]"
        "[]" "[1, 2, 3]" "[7, 8, 9]" "[]"]
    queue_fifo_roundtrip [of "[]" "[]" "[]" "[]" "[4::nat, 5]"]
  by (simp add: ThreadSafeQueue_Push_def ThreadSafeQueue_Pop_def ThreadSafeQueue_TryPop_def
      ThreadSafeQueue_Empty_def numeral_3_eq_3)

section \<open>Properties of the thread registry\<close>

lemmas registry_defs =
  ThreadManager_new_def lock_guard_def ThreadManager_Initialize_def ThreadManager_ThreadExists_def
  ThreadManager_GetThreadStatus_def ThreadManager_CreateThread_def SetNativeThreadPriority_def
  stop_and_join_def ThreadManager_Shutdown_def

text \<open>
  C7. Called on a registry that is not initialized, \<open>Initialize\<close> with argument 0 sets
  \<open>maxThreads_\<close> to the hardware concurrency, or to 2 when that is below 2, and with a
  nonzero argument sets it to the argument; both return true and mark the registry
  initialized. Called on an initialized registry it returns false and changes nothing, so
  the cap stays what it was.
\<close>

theorem Initialize_sets_cap:
  assumes "\<not> mutex_held tm"
  shows "(\<not> initialized tm \<longrightarrow>
            ThreadManager_Initialize hw 0 tm =
              Inr (True, tm\<lparr>maxThreads := (if hw < 2 then 2 else hw), initialized := True\<rparr>)) \<and>
         (\<not> initialized tm \<and> n \<noteq> 0 \<longrightarrow>
            ThreadManager_Initialize hw n tm =
              Inr (True, tm\<lparr>maxThreads := n, initialized := True\<rparr>)) \<and>
         (initialized tm \<longrightarrow> ThreadManager_Initialize hw n tm = Inr (False, tm))"
  using assms
  by (cases tm) (simp add: ThreadManager_Initialize_def lock_guard_def Let_def)

theorem Initialize_sets_cap_witness:
  "\<not> mutex_held ThreadManager_new \<and> \<not> initialized ThreadManager_new \<and>
   ThreadManager_Initialize 1 0 ThreadManager_new =
     Inr (True, ThreadManager_new\<lparr>maxThreads := 2, initialized := True\<rparr>) \<and>
   ThreadManager_Initialize 8 0 ThreadManager_new =
     Inr (True, ThreadManager_new\<lparr>maxThreads := 8, initialized := True\<rparr>) \<and>
   (3::32 word) \<noteq> 0 \<and>
   ThreadManager_Initialize 8 3 ThreadManager_new =
     Inr (True, ThreadManager_new\<lparr>maxThreads := 3, initialized := True\<rparr>) \<and>
   initialized (ThreadManager_new\<lparr>maxThreads := 3, initialized := True\<rparr>) \<and>
   ThreadManager_Initialize 8 5 (ThreadManager_new\<lparr>maxThreads := 3, initialized := True\<rparr>) =
     Inr (False, ThreadManager_new\<lparr>maxThreads := 3, initialized := True\<rparr>)"
  using Initialize_sets_cap [of ThreadManager_new 1 3] Initialize_sets_cap [of ThreadManager_new 8 3]
    Initialize_sets_cap [of "ThreadManager_new\<lparr>maxThreads := 3, initialized := True\<rparr>" 8 5]
  by (simp add: ThreadManager_new_def)

text \<open>
  C10. For a name that is not in the worker table \<open>GetThreadStatus\<close> returns
  \<open>Stopped\<close> and leaves the registry as it is; that is also its answer for a registered
  worker whose status is \<open>Stopped\<close>, so the two queries cannot be told apart.
\<close>

theorem GetThreadStatus_unknown_name:
  assumes "\<not> mutex_held tm" and "map_of (threads tm) unknown = None"
  shows "ThreadManager_GetThreadStatus unknown tm = Inr (Stopped, tm) \<and>
         (\<forall>known threadInfo.
            map_of (threads tm) known = Some threadInfo \<and> status threadInfo = Stopped \<longrightarrow>
            ThreadManager_GetThreadStatus known tm = ThreadManager_GetThreadStatus unknown tm)"
  using assms
  by (cases tm) (simp add: ThreadManager_GetThreadStatus_def lock_guard_def)

theorem GetThreadStatus_unknown_name_witness:
  "\<not> mutex_held (ThreadManager_new\<lparr>threads :=
        [(''Audio'', \<lparr>joinable = False, name = ''Audio'', priority = Normal, status = Stopped,
                      shouldStop = True, isPaused = False\<rparr>)], initialized := True\<rparr>) \<and>
   map_of (threads (ThreadManager_new\<lparr>threads :=
        [(''Audio'', \<lparr>joinable = False, name = ''Audio'', priority = Normal, status = Stopped,
                      shouldStop = True, isPaused = False\<rparr>)], initialized := True\<rparr>)) ''Ghost'' = None \<and>
   map_sum id fst (ThreadManager_GetThreadStatus ''Ghost'' (ThreadManager_new\<lparr>threads :=
        [(''Audio'', \<lparr>joinable = False, name = ''Audio'', priority = Normal, status = Stopped,
                      shouldStop = True, isPaused = False\<rparr>)], initialized := True\<rparr>)) = Inr Stopped \<and>
   map_sum id fst (ThreadManager_GetThreadStatus ''Audio'' (ThreadManager_new\<lparr>threads :=
        [(''Audio'', \<lparr>joinable = False, name = ''Audio'', priority = Normal, status = Stopped,
                      shouldStop = True, isPaused = False\<rparr>)], initialized := True\<rparr>)) = Inr Stopped"
  using GetThreadStatus_unknown_name [of "ThreadManager_new\<lparr>threads :=
        [(''Audio'', \<lparr>joinable = False, name = ''Audio'', priority = Normal, status = Stopped,
                      shouldStop = True, isPaused = False\<rparr>)], initialized := True\<rparr>" "''Ghost''"]
  by (simp add: ThreadManager_new_def)

text \<open>
  On a registry that is not initialized \<open>CreateThread\<close> returns false and changes
  nothing. On an initialized registry it does not return at all: it holds \<open>mutex_\<close> when
  it calls \<open>ThreadExists\<close>, which locks \<open>mutex_\<close> again.
\<close>

lemma CreateThread_uninitialized:
  assumes "\<not> mutex_held tm" and "\<not> initialized tm"
  shows "ThreadManager_CreateThread native_ok nm function prio tm = Inr (False, tm)"
  using assms
  by (cases tm) (simp add: ThreadManager_CreateThread_def lock_guard_def)

lemma CreateThread_initialized:
  assumes "\<not> mutex_held tm" and "initialized tm"
  shows "ThreadManager_CreateThread native_ok nm function prio tm = Inl Deadlock"
  using assms
  by (simp add: ThreadManager_CreateThread_def ThreadManager_ThreadExists_def lock_guard_def)

text \<open>
  C4. The claim holds for the uninitialized registry only. After \<open>Initialize(4)\<close> on a new
  registry, \<open>CreateThread("Physics", f, Normal)\<close> should register the worker and return
  true; \<open>CreateThread("Physics", ...)\<close> on a registry that already has a worker of that
  name, and on a registry that is full, should return false. In all three the call
  deadlocks on \<open>mutex_\<close> instead.
\<close>

theorem CreateThread_self_deadlock:
  "ThreadManager_Initialize 8 4 ThreadManager_new =
     Inr (True, ThreadManager_new\<lparr>maxThreads := 4, initialized := True\<rparr>) \<and>
   ThreadManager_CreateThread True ''Physics'' 0 Normal
     (ThreadManager_new\<lparr>maxThreads := 4, initialized := True\<rparr>) = Inl Deadlock \<and>
   ThreadManager_CreateThread True ''Physics'' 0 Normal
     (ThreadManager_new\<lparr>maxThreads := 4, initialized := True,
        threads := [(''Physics'', \<lparr>joinable = True, name = ''Physics'', priority = Normal,
                       status = Running, shouldStop = False, isPaused = False\<rparr>)]\<rparr>) = Inl Deadlock \<and>
   ThreadManager_CreateThread True ''Physics'' 0 Normal
     (ThreadManager_new\<lparr>maxThreads := 1, initialized := True,
        threads := [(''Audio'', \<lparr>joinable = True, name = ''Audio'', priority = Normal,
                       status = Running, shouldStop = False, isPaused = False\<rparr>)]\<rparr>) = Inl Deadlock \<and>
   ThreadManager_CreateThread True ''Physics'' 0 Normal ThreadManager_new =
     Inr (False, ThreadManager_new)"
  by (simp add: registry_defs)

lemma precedes_appendI:
  "a \<in> set xs \<Longrightarrow> b \<in> set ys \<Longrightarrow> precedes a b (xs @ ys)"
  by (induction xs) auto

lemma precedes_append_left: "precedes a b xs \<Longrightarrow> precedes a b (xs @ ys)"
  by (induction xs) auto

lemma precedes_append_right: "precedes a b ys \<Longrightarrow> precedes a b (xs @ ys)"
  by (induction xs) auto

lemma stop_and_join_effects:
  assumes "stop_and_join finishes nm t = Inr (t', eff)" and "status t \<noteq> Stopped"
  shows "StopRequested nm \<in> set eff"
    and "joinable t \<Longrightarrow> precedes (StopRequested nm) (Joined nm) eff"
    and "status t = Paused \<Longrightarrow> precedes (StopRequested nm) (Unparked nm) eff"
    and "status t = Paused \<Longrightarrow> joinable t \<Longrightarrow> precedes (Unparked nm) (Joined nm) eff"
    and "joinable t \<Longrightarrow> Joined nm \<in> set eff"
    and "status t = Paused \<Longrightarrow> Unparked nm \<in> set eff"
  using assms
  by (auto simp: stop_and_join_def Let_def split: if_splits)

lemma stop_all_segment:
  assumes "stop_all finishes ts = Inr (ts', eff)" and "(nm, t) \<in> set ts"
  shows "\<exists>t' pre seg post. stop_and_join finishes nm t = Inr (t', seg) \<and> eff = pre @ seg @ post"
  using assms
proof (induction ts arbitrary: ts' eff)
  case Nil
  then show ?case by simp
next
  case (Cons p ts)
  obtain nm0 t0 where p: "p = (nm0, t0)" by (cases p)
  from Cons.prems(1) obtain t0' seg0 rest' eff0 where
    first: "stop_and_join finishes nm0 t0 = Inr (t0', seg0)"
    and rest: "stop_all finishes ts = Inr (rest', eff0)"
    and eff: "eff = seg0 @ eff0"
    by (auto simp: p split: sum.splits)
  show ?case
  proof (cases "(nm, t) = p")
    case True
    with first p eff have "stop_and_join finishes nm t = Inr (t0', seg0) \<and> eff = [] @ seg0 @ eff0"
      by simp
    then show ?thesis by blast
  next
    case False
    with Cons.prems(2) have "(nm, t) \<in> set ts" by simp
    from Cons.IH [OF rest this] obtain t' pre seg post where
      "stop_and_join finishes nm t = Inr (t', seg)" and "eff0 = pre @ seg @ post"
      by blast
    then have "stop_and_join finishes nm t = Inr (t', seg) \<and> eff = (seg0 @ pre) @ seg @ post"
      by (simp add: eff)
    then show ?thesis by blast
  qed
qed

lemma stop_all_names:
  "stop_all finishes ts = Inr (ts', eff) \<Longrightarrow> map fst ts' = map fst ts"
  by (induction ts arbitrary: ts' eff) (auto split: sum.splits)

lemma clear_threads_effects:
  "clear_threads ts = Inr eff \<Longrightarrow> eff = map (\<lambda>p. Dropped (fst p)) ts"
  by (induction ts arbitrary: eff) (auto split: sum.splits if_splits)

lemma clear_threads_joined:
  "clear_threads ts = Inr eff \<Longrightarrow> (nm, t) \<in> set ts \<Longrightarrow> \<not> joinable t"
  by (induction ts arbitrary: eff) (auto split: sum.splits if_splits)

lemma Shutdown_returns:
  assumes "ThreadManager_Shutdown finishes tm = Inr ((), tm')" and "initialized tm"
  obtains stopped eff dropped where
    "stop_all finishes (threads tm) = Inr (stopped, eff)"
    "clear_threads stopped = Inr dropped"
    "tm' = tm\<lparr>threads := [], threadPools := [], activeThreadCount := 0,
              initialized := False, effects := effects tm @ eff @ dropped, mutex_held := False\<rparr>"
    "\<not> mutex_held tm"
  using assms
  by (auto simp: ThreadManager_Shutdown_def lock_guard_def split: if_splits sum.splits)

text \<open>
  C5. When \<open>Shutdown\<close> returns on an initialized registry, the worker table and the pool
  table are empty, \<open>activeThreadCount_\<close> is 0 and the registry is not initialized. What it
  did to the threads comes after the earlier effects, and for every worker that was not
  \<open>Stopped\<close>: its stop flag is written before its descriptor is dropped; if it was
  \<open>Paused\<close> it is unparked after the stop flag and before the drop; and its thread, which
  is joinable, is joined after the stop flag (and after the unparking), before the drop. A
  descriptor that is not \<open>Stopped\<close> always holds a joinable thread: \<open>CreateThread\<close>
  spawns the thread when it makes the descriptor, and the only joins (lines 79 and 214) are
  followed by the write of \<open>Stopped\<close>.
\<close>

theorem Shutdown_empties_registry:
  assumes "ThreadManager_Shutdown finishes tm = Inr ((), tm')" and "initialized tm"
  shows "threads tm' = [] \<and> threadPools tm' = [] \<and> activeThreadCount tm' = 0 \<and>
         \<not> initialized tm' \<and>
         take (length (effects tm)) (effects tm') = effects tm \<and>
         (\<forall>(nm, t) \<in> set (threads tm). status t \<noteq> Stopped \<longrightarrow>
            precedes (StopRequested nm) (Dropped nm) (drop (length (effects tm)) (effects tm')) \<and>
            (status t = Paused \<longrightarrow>
               precedes (StopRequested nm) (Unparked nm) (drop (length (effects tm)) (effects tm')) \<and>
               precedes (Unparked nm) (Dropped nm) (drop (length (effects tm)) (effects tm'))) \<and>
            (joinable t \<longrightarrow>
               precedes (StopRequested nm) (Joined nm) (drop (length (effects tm)) (effects tm')) \<and>
               (status t = Paused \<longrightarrow>
                  precedes (Unparked nm) (Joined nm) (drop (length (effects tm)) (effects tm'))) \<and>
               precedes (Joined nm) (Dropped nm) (drop (length (effects tm)) (effects tm'))))"
proof -
  from assms obtain stopped eff dropped where
    stop: "stop_all finishes (threads tm) = Inr (stopped, eff)"
    and clear: "clear_threads stopped = Inr dropped"
    and tm': "tm' = tm\<lparr>threads := [], threadPools := [], activeThreadCount := 0,
              initialized := False, effects := effects tm @ eff @ dropped, mutex_held := False\<rparr>"
    by (rule Shutdown_returns)
  have new: "drop (length (effects tm)) (effects tm') = eff @ dropped"
    by (simp add: tm')
  have names: "map fst stopped = map fst (threads tm)"
    using stop by (rule stop_all_names)
  have "map (\<lambda>p. Dropped (fst p)) stopped = map Dropped (map fst stopped)"
    by (simp add: comp_def)
  also have "\<dots> = map Dropped (map fst (threads tm))"
    by (simp only: names)
  also have "\<dots> = map (\<lambda>p. Dropped (fst p)) (threads tm)"
    by (simp add: comp_def)
  finally have "map (\<lambda>p. Dropped (fst p)) stopped = map (\<lambda>p. Dropped (fst p)) (threads tm)" .
  with clear_threads_effects [OF clear]
  have dropped: "dropped = map (\<lambda>p. Dropped (fst p)) (threads tm)"
    by simp
  have "precedes (StopRequested nm) (Dropped nm) (eff @ dropped) \<and>
        (status t = Paused \<longrightarrow>
           precedes (StopRequested nm) (Unparked nm) (eff @ dropped) \<and>
           precedes (Unparked nm) (Dropped nm) (eff @ dropped)) \<and>
        (joinable t \<longrightarrow>
           precedes (StopRequested nm) (Joined nm) (eff @ dropped) \<and>
           (status t = Paused \<longrightarrow> precedes (Unparked nm) (Joined nm) (eff @ dropped)) \<and>
           precedes (Joined nm) (Dropped nm) (eff @ dropped))"
    if mem: "(nm, t) \<in> set (threads tm)" and live: "status t \<noteq> Stopped" for nm t
  proof -
    from stop_all_segment [OF stop mem] obtain t' pre seg post where
      one: "stop_and_join finishes nm t = Inr (t', seg)" and eff: "eff = pre @ seg @ post"
      by blast
    note facts = stop_and_join_effects [OF one live]
    have d: "Dropped nm \<in> set dropped"
      using mem by (force simp: dropped)
    have in_eff: "x \<in> set seg \<Longrightarrow> x \<in> set eff" for x
      by (simp add: eff)
    have lift: "precedes a b seg \<Longrightarrow> precedes a b (eff @ dropped)" for a b
      by (simp add: eff precedes_append_left precedes_append_right)
    have 1: "precedes (StopRequested nm) (Dropped nm) (eff @ dropped)"
      using facts(1) d by (intro precedes_appendI in_eff)
    have 2: "precedes (StopRequested nm) (Unparked nm) (eff @ dropped)" if "status t = Paused"
      using facts(3) [OF that] by (rule lift)
    have 3: "precedes (Unparked nm) (Dropped nm) (eff @ dropped)" if "status t = Paused"
      using facts(6) [OF that] d by (intro precedes_appendI in_eff)
    have 4: "precedes (StopRequested nm) (Joined nm) (eff @ dropped)" if "joinable t"
      using facts(2) [OF that] by (rule lift)
    have 5: "precedes (Unparked nm) (Joined nm) (eff @ dropped)"
      if "status t = Paused" "joinable t"
      using facts(4) [OF that] by (rule lift)
    have 6: "precedes (Joined nm) (Dropped nm) (eff @ dropped)" if "joinable t"
      using facts(5) [OF that] d by (intro precedes_appendI in_eff)
    from 1 2 3 4 5 6 show ?thesis by blast
  qed
  then have "\<forall>(nm, t) \<in> set (threads tm). status t \<noteq> Stopped \<longrightarrow>
            precedes (StopRequested nm) (Dropped nm) (eff @ dropped) \<and>
            (status t = Paused \<longrightarrow>
               precedes (StopRequested nm) (Unparked nm) (eff @ dropped) \<and>
               precedes (Unparked nm) (Dropped nm) (eff @ dropped)) \<and>
            (joinable t \<longrightarrow>
               precedes (StopRequested nm) (Joined nm) (eff @ dropped) \<and>
               (status t = Paused \<longrightarrow> precedes (Unparked nm) (Joined nm) (eff @ dropped)) \<and>
               precedes (Joined nm) (Dropped nm) (eff @ dropped))"
    by blast
  moreover have "threads tm' = [] \<and> threadPools tm' = [] \<and> activeThreadCount tm' = 0 \<and>
         \<not> initialized tm' \<and> take (length (effects tm)) (effects tm') = effects tm"
    by (simp add: tm')
  ultimately show ?thesis
    unfolding new by blast
qed

theorem Shutdown_empties_registry_witness:
  "initialized
     \<lparr>threads =
        [(''Physics'', \<lparr>joinable = True, name = ''Physics'', priority = High, status = Running,
                        shouldStop = False, isPaused = False\<rparr>),
         (''AI'', \<lparr>joinable = True, name = ''AI'', priority = Normal, status = Paused,
                   shouldStop = False, isPaused = True\<rparr>),
         (''Loader'', \<lparr>joinable = False, name = ''Loader'', priority = Low, status = Stopped,
                       shouldStop = True, isPaused = False\<rparr>)],
      threadPools = [(''GeneralPool'', \<lparr>threadNames = [], taskQueue = [1]\<rparr>)],
      mutex_held = False, maxThreads = 4, initialized = True, activeThreadCount = 2,
      effects = []\<rparr> \<and>
   ThreadManager_Shutdown (\<lambda>nm. True)
     \<lparr>threads =
        [(''Physics'', \<lparr>joinable = True, name = ''Physics'', priority = High, status = Running,
                        shouldStop = False, isPaused = False\<rparr>),
         (''AI'', \<lparr>joinable = True, name = ''AI'', priority = Normal, status = Paused,
                   shouldStop = False, isPaused = True\<rparr>),
         (''Loader'', \<lparr>joinable = False, name = ''Loader'', priority = Low, status = Stopped,
                       shouldStop = True, isPaused = False\<rparr>)],
      threadPools = [(''GeneralPool'', \<lparr>threadNames = [], taskQueue = [1]\<rparr>)],
      mutex_held = False, maxThreads = 4, initialized = True, activeThreadCount = 2,
      effects = []\<rparr> =
   Inr ((), \<lparr>threads = [], threadPools = [], mutex_held = False, maxThreads = 4,
             initialized = False, activeThreadCount = 0,
             effects = [StopRequested ''Physics'', Joined ''Physics'',
                        StopRequested ''AI'', Unparked ''AI'', Joined ''AI'',
                        Dropped ''Physics'', Dropped ''AI'', Dropped ''Loader'']\<rparr>) \<and>
   precedes (Joined ''AI'') (Dropped ''AI'')
     [StopRequested ''Physics'', Joined ''Physics'', StopRequested ''AI'', Unparked ''AI'',
      Joined ''AI'', Dropped ''Physics'', Dropped ''AI'', Dropped ''Loader'']"
  using Shutdown_empties_registry
    [of "\<lambda>nm. True"
     "\<lparr>threads =
        [(''Physics'', \<lparr>joinable = True, name = ''Physics'', priority = High, status = Running,
                        shouldStop = False, isPaused = False\<rparr>),
         (''AI'', \<lparr>joinable = True, name = ''AI'', priority = Normal, status = Paused,
                   shouldStop = False, isPaused = True\<rparr>),
         (''Loader'', \<lparr>joinable = False, name = ''Loader'', priority = Low, status = Stopped,
                       shouldStop = True, isPaused = False\<rparr>)],
      threadPools = [(''GeneralPool'', \<lparr>threadNames = [], taskQueue = [1]\<rparr>)],
      mutex_held = False, maxThreads = 4, initialized = True, activeThreadCount = 2,
      effects = []\<rparr>"
     "\<lparr>threads = [], threadPools = [], mutex_held = False, maxThreads = 4,
             initialized = False, activeThreadCount = 0,
             effects = [StopRequested ''Physics'', Joined ''Physics'',
                        StopRequested ''AI'', Unparked ''AI'', Joined ''AI'',
                        Dropped ''Physics'', Dropped ''AI'', Dropped ''Loader'']\<rparr>"]
  by (simp add: registry_defs)

subsection \<open>The counter of active threads\<close>








section \<open>Properties of the engine\<close>

lemma fixed_update_loop_stop:
  "accumulator e < fixedTimeStep e \<Longrightarrow> fixed_update_loop e = Some e"
  by (subst fixed_update_loop.simps) simp

lemma fixed_update_loop_step:
  "fixedTimeStep e \<le> accumulator e \<Longrightarrow>
   fixed_update_loop e =
     fixed_update_loop ((FixedUpdate (fixedTimeStep e) e)\<lparr>accumulator := accumulator e - fixedTimeStep e\<rparr>)"
  by (subst fixed_update_loop.simps) simp

lemmas engine_defs =
  GameEngine_new_def FIXED_TIMESTEP_def MAX_TIMESTEP_def RegisterStateCallback_def
  SetGameState_def RequestExit_def Update_def FixedUpdate_def Render_def ProcessInput_def
  ShutdownSubsystems_def GameEngine_Shutdown_def begin_frame_def end_frame_def frame_body_def
  GameEngine_Run_def fixed_update_loop_stop fixed_update_loop_step

lemma update_deltas_append: "update_deltas (xs @ ys) = update_deltas xs @ update_deltas ys"
  by (induction xs rule: update_deltas.induct) simp_all

lemma fixed_update_deltas_append:
  "fixed_update_deltas (xs @ ys) = fixed_update_deltas xs @ fixed_update_deltas ys"
  by (induction xs rule: fixed_update_deltas.induct) simp_all


lemma update_deltas_replicate: "update_deltas (replicate k (FixedUpdateCalled d)) = []"
  by (induction k) simp_all

lemma apply_external_keeps:
  "fixedTimeStep (apply_external e x) = fixedTimeStep e"
  "accumulator (apply_external e x) = accumulator e"
  "update_deltas (calls (apply_external e x)) = update_deltas (calls e)"
  "fixed_update_deltas (calls (apply_external e x)) = fixed_update_deltas (calls e)"
  by (cases x; simp add: RequestExit_def SetGameState_def Let_def update_deltas_append
      fixed_update_deltas_append split: option.split)+

lemma arrivals_keep:
  "fixedTimeStep (foldl apply_external e xs) = fixedTimeStep e"
  "accumulator (foldl apply_external e xs) = accumulator e"
  "update_deltas (calls (foldl apply_external e xs)) = update_deltas (calls e)"
  "fixed_update_deltas (calls (foldl apply_external e xs)) = fixed_update_deltas (calls e)"
  by (induction xs arbitrary: e; simp add: apply_external_keeps)+

lemma fixed_update_loop_keeps:
  assumes "fixed_update_loop e = Some e'"
  shows "deltaTime e' = deltaTime e \<and> fixedTimeStep e' = fixedTimeStep e \<and>
         update_deltas (calls e') = update_deltas (calls e)"
proof (rule fixed_update_loop.raw_induct
    [where P = "\<lambda>e e'. deltaTime e' = deltaTime e \<and> fixedTimeStep e' = fixedTimeStep e \<and>
                  update_deltas (calls e') = update_deltas (calls e)", OF _ assms])
  fix loop :: "GameEngine \<Rightarrow> GameEngine option" and a b
  assume IH: "\<And>e e'. loop e = Some e' \<Longrightarrow>
                deltaTime e' = deltaTime e \<and> fixedTimeStep e' = fixedTimeStep e \<and>
                update_deltas (calls e') = update_deltas (calls e)"
    and step: "(if fixedTimeStep a \<le> accumulator a
                then loop ((FixedUpdate (fixedTimeStep a) a)\<lparr>accumulator := accumulator a - fixedTimeStep a\<rparr>)
                else Some a) = Some b"
  show "deltaTime b = deltaTime a \<and> fixedTimeStep b = fixedTimeStep a \<and>
        update_deltas (calls b) = update_deltas (calls a)"
  proof (cases "fixedTimeStep a \<le> accumulator a")
    case True
    with step have "loop ((FixedUpdate (fixedTimeStep a) a)\<lparr>accumulator := accumulator a - fixedTimeStep a\<rparr>) = Some b"
      by simp
    from IH [OF this] show ?thesis
      by (simp add: FixedUpdate_def update_deltas_append)
  next
    case False
    with step show ?thesis by simp
  qed
qed

lemma clamped_min: "clamped f = min (elapsed f) MAX_TIMESTEP"
  by (simp add: clamped_def min_def)

lemma begin_frame_fields:
  "fixedTimeStep (begin_frame f e) = fixedTimeStep e"
  "accumulator (begin_frame f e) = accumulator e + clamped f"
  "calls (begin_frame f e) = calls e @ [ProcessInputCalled]"
  "deltaTime (begin_frame f e) = clamped f"
  by (simp_all add: begin_frame_def Let_def ProcessInput_def clamped_def)

lemma end_frame_fields:
  "fixedTimeStep (end_frame f e) = fixedTimeStep e"
  "accumulator (end_frame f e) = accumulator e"
  "update_deltas (calls (end_frame f e)) = update_deltas (calls e) @ [deltaTime e]"
  "fixed_update_deltas (calls (end_frame f e)) = fixed_update_deltas (calls e)"
  by (simp_all add: end_frame_def Let_def arrivals_keep Update_def Render_def
      update_deltas_append fixed_update_deltas_append)

lemma frame_body_update:
  assumes "frame_body f e = Inr e'"
  shows "update_deltas (calls e') = update_deltas (calls e) @ [clamped f]"
proof -
  from assms obtain e7 where loop: "fixed_update_loop (begin_frame f e) = Some e7"
    and e': "e' = end_frame f e7"
    by (auto simp: frame_body_def split: option.splits)
  from fixed_update_loop_keeps [OF loop]
  have "deltaTime e7 = clamped f" "update_deltas (calls e7) = update_deltas (calls e)"
    by (simp_all add: begin_frame_fields update_deltas_append)
  then show ?thesis
    by (simp add: e' end_frame_fields)
qed

lemma main_loop_updates:
  assumes "main_loop frames e = Inr (e', n)"
  shows "update_deltas (calls e') = update_deltas (calls e) @ map clamped (take n frames)"
  using assms
proof (induction frames arbitrary: e n)
  case Nil
  then show ?case by simp
next
  case (Cons f frames)
  show ?case
  proof (cases "exitRequested e")
    case True
    with Cons.prems show ?thesis by simp
  next
    case False
    with Cons.prems obtain e1 m where body: "frame_body f e = Inr e1"
      and loop: "main_loop frames e1 = Inr (e', m)" and n: "n = Suc m"
      by (auto split: sum.splits)
    from Cons.IH [OF loop] frame_body_update [OF body] show ?thesis
      by (simp add: n)
  qed
qed

text \<open>
  C6. \<open>SetGameState\<close> called with the current state returns the engine unchanged, so no
  callback is invoked. Called with another state it writes that state and, when a callback
  is registered for it, invokes that callback once, after the write (the callback sees the
  new state); nothing else changes. The callback invoked is the one
  \<open>RegisterStateCallback\<close> stored last for the state.
\<close>

theorem SetGameState_fires_callback:
  "(state = gameState e \<longrightarrow> SetGameState state e = e) \<and>
   (state \<noteq> gameState e \<longrightarrow>
      SetGameState state e =
        e\<lparr>gameState := state,
          calls := calls e @
            (case map_of (stateCallbacks e) state of
               None \<Rightarrow> []
             | Some callback \<Rightarrow> [StateCallbackInvoked callback state])\<rparr>) \<and>
   map_of (stateCallbacks (RegisterStateCallback state callback e)) state = Some callback"
  by (cases e) (auto simp: SetGameState_def RegisterStateCallback_def Let_def update_conv'
      split: option.splits)

theorem SetGameState_fires_callback_witness:
  "Racing \<noteq> gameState (RegisterStateCallback Racing 7 (GameEngine_new\<lparr>gameState := RaceSetup\<rparr>)) \<and>
   calls (SetGameState Racing (RegisterStateCallback Racing 7 (GameEngine_new\<lparr>gameState := RaceSetup\<rparr>)))
     = [StateCallbackInvoked 7 Racing] \<and>
   gameState (SetGameState Racing (RegisterStateCallback Racing 7 (GameEngine_new\<lparr>gameState := RaceSetup\<rparr>)))
     = Racing \<and>
   RaceSetup = gameState (RegisterStateCallback RaceSetup 5 (GameEngine_new\<lparr>gameState := RaceSetup\<rparr>)) \<and>
   calls (SetGameState RaceSetup (RegisterStateCallback RaceSetup 5 (GameEngine_new\<lparr>gameState := RaceSetup\<rparr>)))
     = []"
  using SetGameState_fires_callback
      [of Racing "RegisterStateCallback Racing 7 (GameEngine_new\<lparr>gameState := RaceSetup\<rparr>)" 7]
    SetGameState_fires_callback
      [of RaceSetup "RegisterStateCallback RaceSetup 5 (GameEngine_new\<lparr>gameState := RaceSetup\<rparr>)" 5]
  by (simp add: RegisterStateCallback_def GameEngine_new_def)

text \<open>
  C8. Over any number of iterations of the main loop, the deltas that \<open>Update\<close> receives
  are, in order, the elapsed time of each iteration cut down to \<open>MAX_TIMESTEP\<close>, one per
  iteration; so every delta \<open>Update\<close> receives during the loop is at most
  \<open>MAX_TIMESTEP\<close>, which is 1/30.
\<close>

theorem update_delta_clamped:
  assumes "main_loop frames e = Inr (e', n)"
  shows "update_deltas (calls e') =
           update_deltas (calls e) @ map (\<lambda>f. min (elapsed f) MAX_TIMESTEP) (take n frames) \<and>
         (\<forall>dt \<in> set (drop (length (update_deltas (calls e))) (update_deltas (calls e'))).
            dt \<le> MAX_TIMESTEP) \<and>
         MAX_TIMESTEP = 1 / 30"
proof -
  have "update_deltas (calls e') =
          update_deltas (calls e) @ map (\<lambda>f. min (elapsed f) MAX_TIMESTEP) (take n frames)"
    using main_loop_updates [OF assms] by (simp add: clamped_min [abs_def])
  then show ?thesis
    by (auto simp: MAX_TIMESTEP_def)
qed

theorem update_delta_clamped_witness:
  "map_sum id snd (main_loop
      [\<lparr>elapsed = 1 / 120, arrivals = []\<rparr>, \<lparr>elapsed = 1 / 4, arrivals = [ExtRequestExit 0]\<rparr>]
      (GameEngine_new\<lparr>gameState := Racing\<rparr>)) = Inr 2 \<and>
   map_sum id (update_deltas \<circ> calls \<circ> fst) (main_loop
      [\<lparr>elapsed = 1 / 120, arrivals = []\<rparr>, \<lparr>elapsed = 1 / 4, arrivals = [ExtRequestExit 0]\<rparr>]
      (GameEngine_new\<lparr>gameState := Racing\<rparr>)) = Inr [1 / 120, 1 / 30]"
proof -
  let ?e = "GameEngine_new\<lparr>gameState := Racing\<rparr>"
  let ?frames = "[\<lparr>elapsed = 1 / 120, arrivals = []\<rparr>, \<lparr>elapsed = 1 / 4, arrivals = [ExtRequestExit 0]\<rparr>]"
  have n: "map_sum id snd (main_loop ?frames ?e) = Inr 2" by (simp add: engine_defs)
  then obtain e' where run: "main_loop ?frames ?e = Inr (e', 2)"
    by (cases "main_loop ?frames ?e") auto
  from update_delta_clamped [OF run]
  have "update_deltas (calls e') = [1 / 120, 1 / 30]"
    by (simp add: GameEngine_new_def MAX_TIMESTEP_def)
  with run n show ?thesis by simp
qed

subsection \<open>The number of fixed steps\<close>

text \<open>
  When the fixed step and the accumulator are multiples of a unit \<open>u\<close> and the rounding
  leaves the multiples of \<open>u\<close> up to the accumulator as they are, the inner loop ends,
  makes one call for every whole fixed step in the accumulator, and leaves the rest.
\<close>

lemma fixed_update_loop_rounded_stop:
  "accumulator e < fixedTimeStep e \<Longrightarrow> fixed_update_loop_rounded rnd e = Some e"
  by (subst fixed_update_loop_rounded.simps) simp

lemma fixed_update_loop_rounded_step:
  "fixedTimeStep e \<le> accumulator e \<Longrightarrow>
   fixed_update_loop_rounded rnd e =
     fixed_update_loop_rounded rnd
       ((FixedUpdate (fixedTimeStep e) e)\<lparr>accumulator := rnd (accumulator e - fixedTimeStep e)\<rparr>)"
  by (subst fixed_update_loop_rounded.simps) simp

text \<open>
  With a rounding that changes nothing, the versions in double arithmetic are the exact
  versions: the two differ in the rounding alone.
\<close>

lemma unrounded_loop_1:
  assumes "fixed_update_loop e = Some e'"
  shows "fixed_update_loop_rounded (\<lambda>x. x) e = Some e'"
proof (rule fixed_update_loop.raw_induct
    [where P = "\<lambda>e e'. fixed_update_loop_rounded (\<lambda>x. x) e = Some e'", OF _ assms])
  fix loop :: "GameEngine \<Rightarrow> GameEngine option" and a b
  assume IH: "\<And>e e'. loop e = Some e' \<Longrightarrow> fixed_update_loop_rounded (\<lambda>x. x) e = Some e'"
    and step: "(if fixedTimeStep a \<le> accumulator a
                then loop ((FixedUpdate (fixedTimeStep a) a)\<lparr>accumulator := accumulator a - fixedTimeStep a\<rparr>)
                else Some a) = Some b"
  show "fixed_update_loop_rounded (\<lambda>x. x) a = Some b"
  proof (cases "fixedTimeStep a \<le> accumulator a")
    case True
    with step IH show ?thesis
      by (simp add: fixed_update_loop_rounded_step)
  next
    case False
    with step show ?thesis
      by (simp add: fixed_update_loop_rounded_stop)
  qed
qed

lemma unrounded_loop_2_aux:
  assumes "fixed_update_loop_rounded rnd e = Some e'"
  shows "rnd = (\<lambda>x. x) \<longrightarrow> fixed_update_loop e = Some e'"
proof (rule fixed_update_loop_rounded.raw_induct
    [where P = "\<lambda>rnd e e'. rnd = (\<lambda>x. x) \<longrightarrow> fixed_update_loop e = Some e'",
     OF _ assms])
  fix loop :: "(rat \<Rightarrow> rat) \<Rightarrow> GameEngine \<Rightarrow> GameEngine option" and rnd a b
  assume IH: "\<And>rnd e e'. loop rnd e = Some e' \<Longrightarrow> rnd = (\<lambda>x. x) \<longrightarrow> fixed_update_loop e = Some e'"
    and step: "(if fixedTimeStep a \<le> accumulator a
                then loop rnd ((FixedUpdate (fixedTimeStep a) a)\<lparr>accumulator := rnd (accumulator a - fixedTimeStep a)\<rparr>)
                else Some a) = Some b"
  show "rnd = (\<lambda>x. x) \<longrightarrow> fixed_update_loop a = Some b"
  proof (cases "fixedTimeStep a \<le> accumulator a")
    case True
    with step IH show ?thesis
      by (auto simp: fixed_update_loop_step)
  next
    case False
    with step show ?thesis
      by (simp add: fixed_update_loop_stop)
  qed
qed

lemma unrounded_loop_2:
  "fixed_update_loop_rounded (\<lambda>x. x) e = Some e' \<Longrightarrow> fixed_update_loop e = Some e'"
  using unrounded_loop_2_aux [of "\<lambda>x. x" e e'] by simp

lemma unrounded_loop:
  "fixed_update_loop_rounded (\<lambda>x. x) e = fixed_update_loop e"
proof (cases "fixed_update_loop e")
  case None
  then show ?thesis
    using unrounded_loop_2 [of e] by (cases "fixed_update_loop_rounded (\<lambda>x. x) e") auto
next
  case (Some e')
  then show ?thesis by (simp add: unrounded_loop_1)
qed

lemma unrounded_begin_frame:
  "begin_frame_rounded (\<lambda>x. x) f e = begin_frame f e"
  by (simp add: begin_frame_rounded_def begin_frame_def)

lemma unrounded_end_frame:
  "end_frame_rounded (\<lambda>x. x) f e = end_frame f e"
  by (simp add: end_frame_rounded_def end_frame_def)

lemma unrounded_frame_body:
  "frame_body_rounded (\<lambda>x. x) f e = frame_body f e"
  by (simp add: frame_body_rounded_def frame_body_def unrounded_begin_frame
      unrounded_end_frame unrounded_loop split: option.splits)

lemma unrounded_main_loop:
  "main_loop_rounded (\<lambda>x. x) frames e = main_loop frames e"
  by (induction frames arbitrary: e) (simp_all add: unrounded_frame_body split: sum.splits)














text \<open>
  When \<open>Run\<close> leaves its loop in a state other than \<open>Uninitialized\<close>, the \<open>Shutdown\<close> it
  calls resets \<open>exitCode_\<close> to 0 before \<open>Run\<close> reads it for its return value.
\<close>

lemma Run_returns_zero:
  assumes "GameEngine_Run finishes [] e = Inr (code, e')" and "gameState e \<noteq> Uninitialized"
  shows "code = 0"
  using assms
  by (auto simp: GameEngine_Run_def GameEngine_Shutdown_def split: if_splits sum.splits)

text \<open>
  C1. \<open>RequestExit(3)\<close> on a running engine, before \<open>Run\<close> or during its first
  iteration: \<open>Run\<close> leaves the loop, calls \<open>Shutdown\<close> and should return 3, and
  returns 0. \<open>Run\<close> on an engine that is \<open>Uninitialized\<close> returns -1.
\<close>

theorem Run_loses_exit_code:
  "map_sum id fst
     (GameEngine_Run (\<lambda>nm. True) []
        (RequestExit 3
           (GameEngine_new\<lparr>threadManager := Some (ThreadManager_new\<lparr>maxThreads := 2, initialized := True\<rparr>),
                            gameState := Loading\<rparr>))) = Inr 0 \<and>
   map_sum id fst
     (GameEngine_Run (\<lambda>nm. True) [\<lparr>elapsed = 1 / 100, arrivals = [ExtRequestExit 3]\<rparr>]
        (GameEngine_new\<lparr>threadManager := Some (ThreadManager_new\<lparr>maxThreads := 2, initialized := True\<rparr>),
                         gameState := Loading\<rparr>)) = Inr 0 \<and>
   map_sum id fst (GameEngine_Run (\<lambda>nm. True) [] (RequestExit 3 GameEngine_new)) = Inr (- 1)"
  by (simp add: engine_defs registry_defs)

end
